theory Spec2Isabelle
  imports Complex_Main
begin

section \<open>Data model of the scoring pipeline\<close>

text \<open>
  The embedding follows \<^verbatim>\<open>langcheck/metrics/scorer/hf_models.py\<close> (class
  \<^verbatim>\<open>AutoModelForSequenceClassificationScorer\<close>) and the module-level model globals of
  \<^verbatim>\<open>langcheck/eval/reference_free_text_quality.py\<close>. Leading underscores of Python
  names are dropped (\<^verbatim>\<open>_tokenize\<close> is \<open>tokenize\<close>).

  Every \<^verbatim>\<open>raise\<close>, failed \<^verbatim>\<open>assert\<close> and out-of-range index of the source is
  a value of \<open>py_error\<close>; a fallible function returns \<open>py_error + 'a\<close>.
\<close>

datatype py_error =
    ValueError string
  | AssertionError
  | IndexError
  | OSError string

text \<open>
  A \<^verbatim>\<open>BatchEncoding\<close> is a dictionary from keys (\<^verbatim>\<open>input_ids\<close>,
  \<^verbatim>\<open>attention_mask\<close>, ...) to integer tensors whose first dimension is the batch;
  it is kept as an association list of rows, in the dictionary's order.
\<close>

type_synonym batch_encoding = "(string \<times> int list list) list"

text \<open>
  A two-dimensional float tensor: \<^verbatim>\<open>shape[0]\<close> is \<open>length (rows t)\<close>,
  \<^verbatim>\<open>shape[1]\<close> is \<open>ncols t\<close> (kept explicitly, since an empty batch still has a
  class count). Entries are real numbers: the rounding of 32-bit floats is outside the
  model.
\<close>

record tensor =
  ncols :: nat
  rows :: "real list list"

definition wf_tensor :: "tensor \<Rightarrow> bool" where
  "wf_tensor t = list_all (\<lambda>r. length r = ncols t) (rows t)"

text \<open>
  The tokenizer and the model are external collaborators (Hugging Face objects); only the
  operations the source calls are kept. \<open>encode\<close> is \<^verbatim>\<open>tokenizer.encode(text)\<close>
  (no padding, no truncation); \<open>tokenizer_call\<close> is \<^verbatim>\<open>tokenizer(inputs, padding=True,
  return_tensors='pt', ...)\<close>, with \<open>Some n\<close> for \<^verbatim>\<open>truncation=True, max_length=n\<close>
  and \<open>None\<close> when the call does not truncate. \<open>forward\<close> is
  \<^verbatim>\<open>model(**input_tokens).logits\<close>. The three operations are taken to return:
  an exception raised inside the libraries is not part of the model.
\<close>

record hf_tokenizer =
  encode :: "string \<Rightarrow> int list"
  tokenizer_call :: "string list \<Rightarrow> int option \<Rightarrow> batch_encoding"

record hf_model =
  forward :: "batch_encoding \<Rightarrow> tensor"
  max_position_embeddings :: int

record scorer =
  overflow_strategy :: string
  tokenizer :: hf_tokenizer
  model :: hf_model
  class_weights :: "real list"
  max_input_length :: int

section \<open>The scorer\<close>

text \<open>
  \<^verbatim>\<open>__init__\<close>: the strategy string is stored as given; the pair comes from
  \<^verbatim>\<open>manager.fetch_model\<close> (a parameter here: the model manager is another module),
  whose failure propagates; \<^verbatim>\<open>max_input_length\<close> defaults to the model's
  \<^verbatim>\<open>max_position_embeddings\<close>.
\<close>

definition scorer_init ::
  "(string \<Rightarrow> string \<Rightarrow> py_error + hf_tokenizer \<times> hf_model) \<Rightarrow> string \<Rightarrow> string \<Rightarrow>
     real list \<Rightarrow> string \<Rightarrow> int option \<Rightarrow> py_error + scorer" where
  "scorer_init fetch_model language metric cw strategy mil =
     (case fetch_model language metric of
        Inl e \<Rightarrow> Inl e
      | Inr (tok, mdl) \<Rightarrow>
          Inr \<lparr>overflow_strategy = strategy, tokenizer = tok, model = mdl,
               class_weights = cw,
               max_input_length =
                 (case mil of Some n \<Rightarrow> n | None \<Rightarrow> max_position_embeddings mdl)\<rparr>)"

text \<open>
  \<^verbatim>\<open>_validate_inputs\<close>: the loop appends one boolean per input to
  \<^verbatim>\<open>validation_results\<close>, the accumulator of \<open>validate_loop\<close>.
\<close>

fun validate_loop :: "scorer \<Rightarrow> bool list \<Rightarrow> string list \<Rightarrow> bool list" where
  "validate_loop s validation_results [] = validation_results"
| "validate_loop s validation_results (input_str # inputs) =
     (let input_ids = encode (tokenizer s) input_str
      in validate_loop s
           (validation_results @ [int (length input_ids) \<le> max_input_length s]) inputs)"

definition validate_inputs :: "scorer \<Rightarrow> string list \<Rightarrow> bool list" where
  "validate_inputs s inputs = validate_loop s [] inputs"

text \<open>
  \<^verbatim>\<open>_tokenize\<close>. The \<^verbatim>\<open>assert self.overflow_strategy == 'nullify'\<close> is the
  branch returning \<open>AssertionError\<close>.
\<close>

definition tokenize :: "scorer \<Rightarrow> string list \<Rightarrow> py_error + batch_encoding \<times> bool list" where
  "tokenize s inputs =
     (let truncated_tokens = tokenizer_call (tokenizer s) inputs (Some (max_input_length s))
      in if overflow_strategy s = ''truncate''
         then Inr (truncated_tokens, replicate (length inputs) True)
         else
           let input_validation_results = validate_inputs s inputs
           in if overflow_strategy s = ''raise'' \<and> \<not> list_all (\<lambda>b. b) input_validation_results
              then Inl (ValueError ''Some of the inputs are too long.'')
              else if overflow_strategy s \<noteq> ''nullify''
              then Inl AssertionError
              else Inr (truncated_tokens, input_validation_results))"

text \<open>
  \<^verbatim>\<open>_logits_to_scores\<close>: softmax over the class axis, then one pass per class
  weight adding the weighted column \<^verbatim>\<open>probs[:, i]\<close> to the running scores. Reading a
  column beyond \<^verbatim>\<open>shape[1]\<close> raises \<^verbatim>\<open>IndexError\<close>.
\<close>

definition softmax_row :: "real list \<Rightarrow> real list" where
  "softmax_row xs = map (\<lambda>x. exp x / sum_list (map exp xs)) xs"

definition softmax :: "tensor \<Rightarrow> tensor" where
  "softmax t = t\<lparr>rows := map softmax_row (rows t)\<rparr>"

definition column :: "tensor \<Rightarrow> nat \<Rightarrow> py_error + real list" where
  "column t i = (if i < ncols t then Inr (map (\<lambda>r. r ! i) (rows t)) else Inl IndexError)"

fun accumulate_scores :: "tensor \<Rightarrow> real list \<Rightarrow> nat \<Rightarrow> real list \<Rightarrow> py_error + real list" where
  "accumulate_scores probs scores i [] = Inr scores"
| "accumulate_scores probs scores i (class_weight # ws) =
     (case column probs i of
        Inl e \<Rightarrow> Inl e
      | Inr col \<Rightarrow>
          accumulate_scores probs
            (map2 (+) scores (map (\<lambda>p. p * class_weight) col)) (Suc i) ws)"

definition logits_to_scores :: "scorer \<Rightarrow> tensor \<Rightarrow> py_error + real list" where
  "logits_to_scores s logits =
     (let probs = softmax logits;
          scores = replicate (length (rows probs)) 0
      in accumulate_scores probs scores 0 (class_weights s))"

text \<open>
  \<^verbatim>\<open>_score_tokens\<close>: the loop over \<^verbatim>\<open>enumerate(validation_results)\<close> assigns
  \<^verbatim>\<open>scores[i] = None\<close> where the flag is false; the assignment raises
  \<^verbatim>\<open>IndexError\<close> beyond the end of \<^verbatim>\<open>scores\<close>.
\<close>

fun nullify_loop :: "real option list \<Rightarrow> nat \<Rightarrow> bool list \<Rightarrow> py_error + real option list" where
  "nullify_loop scores i [] = Inr scores"
| "nullify_loop scores i (validation_result # vs) =
     (if \<not> validation_result
      then (if i < length scores
            then nullify_loop (scores[i := None]) (Suc i) vs
            else Inl IndexError)
      else nullify_loop scores (Suc i) vs)"

definition score_tokens ::
  "scorer \<Rightarrow> batch_encoding \<times> bool list \<Rightarrow> py_error + real option list" where
  "score_tokens s tokens =
     (case tokens of (input_tokens, validation_results) \<Rightarrow>
        (case logits_to_scores s (forward (model s) input_tokens) of
           Inl e \<Rightarrow> Inl e
         | Inr scores \<Rightarrow> nullify_loop (map Some scores) 0 validation_results))"

text \<open>
  \<^verbatim>\<open>_slice_tokens\<close>. \<^verbatim>\<open>value[start_idx:end_idx]\<close> is Python slicing: a negative
  bound counts from the end, and both bounds are clamped to the sequence.
\<close>

definition slice_bound :: "int \<Rightarrow> int \<Rightarrow> int" where
  "slice_bound n i = (if i < 0 then max (n + i) 0 else min i n)"

definition py_slice :: "'a list \<Rightarrow> int \<Rightarrow> int \<Rightarrow> 'a list" where
  "py_slice xs start_idx end_idx =
     (let n = int (length xs);
          lo = slice_bound n start_idx;
          hi = slice_bound n end_idx
      in take (nat (hi - lo)) (drop (nat lo) xs))"

definition slice_tokens ::
  "scorer \<Rightarrow> batch_encoding \<times> bool list \<Rightarrow> int \<Rightarrow> int \<Rightarrow> batch_encoding \<times> bool list" where
  "slice_tokens s tokens start_idx end_idx =
     (case tokens of (input_tokens, validation_results) \<Rightarrow>
        (map (\<lambda>(key, value). (key, py_slice value start_idx end_idx)) input_tokens,
         py_slice validation_results start_idx end_idx))"

section \<open>Module-level model globals\<close>

text \<open>
  \<^verbatim>\<open>langcheck/eval/reference_free_text_quality.py\<close> keeps one tokenizer and one model
  per metric in module globals, all \<^verbatim>\<open>None\<close> at import. \<open>from_pretrained_calls\<close> is
  not a variable of the source: it records, in order, every call of
  \<^verbatim>\<open>from_pretrained\<close>, so that statements about (re)loading can be made. The two
  \<^verbatim>\<open>from_pretrained\<close> class methods are external and may fail.
\<close>

datatype load_event = TokenizerLoad string | ModelLoad string

record hub =
  AutoTokenizer_from_pretrained :: "string \<Rightarrow> py_error + hf_tokenizer"
  AutoModelForSequenceClassification_from_pretrained :: "string \<Rightarrow> py_error + hf_model"

record module_globals =
  sentiment_tokenizer :: "hf_tokenizer option"
  sentiment_model :: "hf_model option"
  fluency_tokenizer :: "hf_tokenizer option"
  fluency_model :: "hf_model option"
  from_pretrained_calls :: "load_event list"

definition initial_globals :: module_globals where
  "initial_globals =
     \<lparr>sentiment_tokenizer = None, sentiment_model = None,
      fluency_tokenizer = None, fluency_model = None, from_pretrained_calls = []\<rparr>"

record eval_value =
  metric_name :: string
  prompts :: "string list option"
  generated_outputs :: "string list"
  metric_values :: "real list"

definition sentiment_model_path :: string where
  "sentiment_model_path = ''cardiffnlp/twitter-roberta-base-sentiment-latest''"

definition fluency_model_path :: string where
  "fluency_model_path = ''prithivida/parrot_fluency_model''"

text \<open>
  The first block of \<^verbatim>\<open>sentiment\<close>: when either global is \<^verbatim>\<open>None\<close>, the
  tokenizer is loaded and assigned, then the model. An exception leaves the assignments
  made so far in place. The result is the pair the rest of the function uses.
\<close>

definition sentiment_fetch ::
  "hub \<Rightarrow> module_globals \<Rightarrow> module_globals \<times> (py_error + hf_tokenizer \<times> hf_model)" where
  "sentiment_fetch h g =
     (case (sentiment_tokenizer g, sentiment_model g) of
        (Some tok, Some mdl) \<Rightarrow> (g, Inr (tok, mdl))
      | _ \<Rightarrow>
          (let g1 = g\<lparr>from_pretrained_calls :=
                        from_pretrained_calls g @ [TokenizerLoad sentiment_model_path]\<rparr>
           in case AutoTokenizer_from_pretrained h sentiment_model_path of
                Inl e \<Rightarrow> (g1, Inl e)
              | Inr tok \<Rightarrow>
                  (let g2 = g1\<lparr>sentiment_tokenizer := Some tok,
                                from_pretrained_calls :=
                                  from_pretrained_calls g1 @ [ModelLoad sentiment_model_path]\<rparr>
                   in case AutoModelForSequenceClassification_from_pretrained h
                             sentiment_model_path of
                        Inl e \<Rightarrow> (g2, Inl e)
                      | Inr mdl \<Rightarrow> (g2\<lparr>sentiment_model := Some mdl\<rparr>, Inr (tok, mdl)))))"

definition sentiment ::
  "hub \<Rightarrow> module_globals \<Rightarrow> string list \<Rightarrow> module_globals \<times> (py_error + eval_value)" where
  "sentiment h g outputs =
     (case sentiment_fetch h g of
        (g', Inl e) \<Rightarrow> (g', Inl e)
      | (g', Inr (tok, mdl)) \<Rightarrow>
          (let input_tokens = tokenizer_call tok outputs None;
               probs = softmax (forward mdl input_tokens)
           in case column probs 1 of
                Inl e \<Rightarrow> (g', Inl e)
              | Inr c1 \<Rightarrow>
                  (case column probs 2 of
                     Inl e \<Rightarrow> (g', Inl e)
                   | Inr c2 \<Rightarrow>
                       (g', Inr \<lparr>metric_name = ''sentiment'', prompts = None,
                                 generated_outputs = outputs,
                                 metric_values = map2 (\<lambda>a b. a / 2 + b) c1 c2\<rparr>))))"

definition fluency_fetch ::
  "hub \<Rightarrow> module_globals \<Rightarrow> module_globals \<times> (py_error + hf_tokenizer \<times> hf_model)" where
  "fluency_fetch h g =
     (case (fluency_tokenizer g, fluency_model g) of
        (Some tok, Some mdl) \<Rightarrow> (g, Inr (tok, mdl))
      | _ \<Rightarrow>
          (let g1 = g\<lparr>from_pretrained_calls :=
                        from_pretrained_calls g @ [TokenizerLoad fluency_model_path]\<rparr>
           in case AutoTokenizer_from_pretrained h fluency_model_path of
                Inl e \<Rightarrow> (g1, Inl e)
              | Inr tok \<Rightarrow>
                  (let g2 = g1\<lparr>fluency_tokenizer := Some tok,
                                from_pretrained_calls :=
                                  from_pretrained_calls g1 @ [ModelLoad fluency_model_path]\<rparr>
                   in case AutoModelForSequenceClassification_from_pretrained h
                             fluency_model_path of
                        Inl e \<Rightarrow> (g2, Inl e)
                      | Inr mdl \<Rightarrow> (g2\<lparr>fluency_model := Some mdl\<rparr>, Inr (tok, mdl)))))"

definition fluency ::
  "hub \<Rightarrow> module_globals \<Rightarrow> string list \<Rightarrow> module_globals \<times> (py_error + eval_value)" where
  "fluency h g outputs =
     (case fluency_fetch h g of
        (g', Inl e) \<Rightarrow> (g', Inl e)
      | (g', Inr (tok, mdl)) \<Rightarrow>
          (let input_tokens = tokenizer_call tok outputs None;
               probs = softmax (forward mdl input_tokens)
           in case column probs 1 of
                Inl e \<Rightarrow> (g', Inl e)
              | Inr c1 \<Rightarrow>
                  (g', Inr \<lparr>metric_name = ''fluency'', prompts = None,
                            generated_outputs = outputs, metric_values = c1\<rparr>)))"

text \<open>
  A client of the module: a sequence of calls of the two metric functions, threading the
  globals. It is the setting in which "at most once per key" is stated.
\<close>

datatype metric_call = CallSentiment "string list" | CallFluency "string list"

fun run_calls :: "hub \<Rightarrow> module_globals \<Rightarrow> metric_call list \<Rightarrow> module_globals" where
  "run_calls h g [] = g"
| "run_calls h g (CallSentiment outputs # cs) = run_calls h (fst (sentiment h g outputs)) cs"
| "run_calls h g (CallFluency outputs # cs) = run_calls h (fst (fluency h g outputs)) cs"

section \<open>Concrete inputs\<close>

text \<open>
  A small tokenizer (one token per character), a three-class model with constant logits,
  and a hub serving both, used to evaluate the definitions on concrete inputs.
\<close>

definition toy_tokenizer :: hf_tokenizer where
  "toy_tokenizer =
     \<lparr>encode = (\<lambda>text. map (\<lambda>c. 1) text),
      tokenizer_call = (\<lambda>inputs max_length.
        [(''input_ids'',
          map (\<lambda>text. case max_length of
                          None \<Rightarrow> map (\<lambda>c. 1) text
                        | Some n \<Rightarrow> take (nat n) (map (\<lambda>c. 1) text)) inputs)])\<rparr>"

definition toy_model :: hf_model where
  "toy_model =
     \<lparr>forward = (\<lambda>input_tokens.
        \<lparr>ncols = 3,
         rows = map (\<lambda>r. [0, 0, 0])
                  (case map_of input_tokens ''input_ids'' of None \<Rightarrow> [] | Some rs \<Rightarrow> rs)\<rparr>),
      max_position_embeddings = 4\<rparr>"

definition toy_scorer :: "string \<Rightarrow> scorer" where
  "toy_scorer strategy =
     \<lparr>overflow_strategy = strategy, tokenizer = toy_tokenizer, model = toy_model,
      class_weights = [0, 1 / 2, 1], max_input_length = 4\<rparr>"

definition toy_hub :: hub where
  "toy_hub =
     \<lparr>AutoTokenizer_from_pretrained = (\<lambda>path. Inr toy_tokenizer),
      AutoModelForSequenceClassification_from_pretrained = (\<lambda>path. Inr toy_model)\<rparr>"

definition toy_fetch :: "string \<Rightarrow> string \<Rightarrow> py_error + hf_tokenizer \<times> hf_model" where
  "toy_fetch language metric = Inr (toy_tokenizer, toy_model)"

text \<open>
  A model whose logits depend on the length of the token row, so that the scores of
  different inputs differ and their order can be observed.
\<close>

definition toy_length_model :: hf_model where
  "toy_length_model =
     \<lparr>forward = (\<lambda>input_tokens.
        \<lparr>ncols = 3,
         rows = map (\<lambda>r. [0, 0, if length r < 3 then 0 else ln 2])
                  (case map_of input_tokens ''input_ids'' of None \<Rightarrow> [] | Some rs \<Rightarrow> rs)\<rparr>),
      max_position_embeddings = 4\<rparr>"

definition toy_length_scorer :: "string \<Rightarrow> scorer" where
  "toy_length_scorer strategy =
     \<lparr>overflow_strategy = strategy, tokenizer = toy_tokenizer, model = toy_length_model,
      class_weights = [0, 1 / 2, 1], max_input_length = 4\<rparr>"

section \<open>Notions of the specification\<close>

text \<open>
  The dot product of a probability vector and a weight vector, as the specification words
  it; \<open>zip\<close> pairs the two vectors up to the shorter one.
\<close>

definition dot_product :: "real list \<Rightarrow> real list \<Rightarrow> real" where
  "dot_product p w = sum_list (map2 (*) p w)"

text \<open>
  Python's subscript \<^verbatim>\<open>xs[i]\<close>, used to say which item of the original batch a
  position of a slice holds: a negative index counts from the end, and an index outside
  the list raises \<^verbatim>\<open>IndexError\<close>.
\<close>

definition py_index :: "'a list \<Rightarrow> int \<Rightarrow> py_error + 'a" where
  "py_index xs i =
     (let n = int (length xs); j = (if i < 0 then n + i else i)
      in if 0 \<le> j \<and> j < n then Inr (xs ! nat j) else Inl IndexError)"

text \<open>
  The invariant behind "at most once per key": no \<^verbatim>\<open>from_pretrained\<close> call is
  recorded twice, and a recorded call for a metric's path means that metric's tokenizer
  and model are both set.
\<close>

definition loaded_once :: "module_globals \<Rightarrow> bool" where
  "loaded_once g =
     (distinct (from_pretrained_calls g) \<and>
      ((TokenizerLoad sentiment_model_path \<in> set (from_pretrained_calls g) \<or>
        ModelLoad sentiment_model_path \<in> set (from_pretrained_calls g)) \<longrightarrow>
         sentiment_tokenizer g \<noteq> None \<and> sentiment_model g \<noteq> None) \<and>
      ((TokenizerLoad fluency_model_path \<in> set (from_pretrained_calls g) \<or>
        ModelLoad fluency_model_path \<in> set (from_pretrained_calls g)) \<longrightarrow>
         fluency_tokenizer g \<noteq> None \<and> fluency_model g \<noteq> None))"

section \<open>Input validation and the overflow strategies\<close>

lemma validate_loop_append:
  "validate_loop s acc inputs =
     acc @ map (\<lambda>text. int (length (encode (tokenizer s) text)) \<le> max_input_length s) inputs"
  by (induction inputs arbitrary: acc) (simp_all add: Let_def)

lemma validate_inputs_map:
  "validate_inputs s inputs =
     map (\<lambda>text. int (length (encode (tokenizer s) text)) \<le> max_input_length s) inputs"
  by (simp add: validate_inputs_def validate_loop_append)

text \<open>
  Under \<^verbatim>\<open>'raise'\<close> an input that is too long makes \<open>tokenize\<close> fail with the
  \<^verbatim>\<open>ValueError\<close> of the source, whatever the model is: no inference has run.
\<close>

lemma tokenize_raise_too_long:
  assumes "overflow_strategy s = ''raise''"
    and "\<not> list_all (\<lambda>b. b) (validate_inputs s inputs)"
  shows "tokenize s inputs = Inl (ValueError ''Some of the inputs are too long.'')"
  using assms by (simp add: tokenize_def Let_def)

text \<open>
  Under \<^verbatim>\<open>'raise'\<close> with every input within the limit, control passes the
  \<^verbatim>\<open>raise\<close> and reaches \<^verbatim>\<open>assert self.overflow_strategy == 'nullify'\<close>, which
  fails.
\<close>

lemma tokenize_raise_all_fit:
  assumes "overflow_strategy s = ''raise''"
    and "list_all (\<lambda>b. b) (validate_inputs s inputs)"
  shows "tokenize s inputs = Inl AssertionError"
  using assms by (simp add: tokenize_def Let_def)

text \<open>
  Claim C1 (the \<^verbatim>\<open>'raise'\<close> strategy raises only when an input is too long; when
  every input fits, no error is raised). The code at a batch whose only input fits: the
  validation marks it valid, and \<open>tokenize\<close> nevertheless fails, with the assertion
  failure of the statement after the \<^verbatim>\<open>raise\<close>.
\<close>

theorem tokenize_raise_fitting_input_asserts:
  "validate_inputs (toy_scorer ''raise'') [''abc''] = [True] \<and>
   tokenize (toy_scorer ''raise'') [''abc''] = Inl AssertionError"
  by (simp add: tokenize_def validate_inputs_def toy_scorer_def toy_tokenizer_def Let_def)

text \<open>
  Claim C7. For every input string the validator marks the input valid exactly when the
  number of tokens of \<^verbatim>\<open>tokenizer.encode(text)\<close> is at most
  \<^verbatim>\<open>max_input_length\<close>. The result is a function of the encoder and the limit
  alone; no other state is read or written.
\<close>

theorem validate_inputs_within_limit:
  "validate_inputs s inputs =
     map (\<lambda>text. int (length (encode (tokenizer s) text)) \<le> max_input_length s) inputs \<and>
   (\<forall>i<length inputs.
      validate_inputs s inputs ! i =
        (int (length (encode (tokenizer s) (inputs ! i))) \<le> max_input_length s))"
  by (simp add: validate_inputs_map)

theorem validate_inputs_within_limit_witness:
  "validate_inputs (toy_scorer ''nullify'') [''abc'', ''abcdefgh''] = [True, False] \<and>
   (1::nat) < length [''abc'', ''abcdefgh''] \<and>
   validate_inputs (toy_scorer ''nullify'') [''abc'', ''abcdefgh''] ! 1 =
     (int (length (encode (tokenizer (toy_scorer ''nullify'')) ''abcdefgh'')) \<le> 4) \<and>
   \<not> int (length (encode (tokenizer (toy_scorer ''nullify'')) ''abcdefgh'')) \<le> 4"
  using validate_inputs_within_limit [of "toy_scorer ''nullify''" "[''abc'', ''abcdefgh'']"]
  by (simp add: toy_scorer_def toy_tokenizer_def)

section \<open>Nullifying the scores of rejected inputs\<close>

text \<open>
  What the loop of \<^verbatim>\<open>_score_tokens\<close> returns, when it returns: the scores with
  \<^verbatim>\<open>None\<close> written at the positions \<open>i, i + 1, ...\<close> whose flag is false.
\<close>

lemma nullify_loop_result:
  "nullify_loop scores i vs = Inr res \<Longrightarrow>
     length res = length scores \<and>
     (\<forall>j<length scores. res ! j =
        (if i \<le> j \<and> j < i + length vs \<and> \<not> vs ! (j - i) then None else scores ! j))"
proof (induction vs arbitrary: scores i)
  case Nil
  then show ?case by auto
next
  case (Cons v vs)
  show ?case
  proof (cases v)
    case True
    with Cons.prems have "nullify_loop scores (Suc i) vs = Inr res" by simp
    from Cons.IH[OF this] True show ?thesis
      by (auto simp: nth_Cons' Suc_diff_le split: if_splits)
  next
    case False
    with Cons.prems have i: "i < length scores"
      and r: "nullify_loop (scores[i := None]) (Suc i) vs = Inr res"
      by (auto split: if_splits)
    from Cons.IH[OF r] False i show ?thesis
      by (auto simp: nth_Cons' nth_list_update Suc_diff_le split: if_splits)
  qed
qed

text \<open>The loop returns whenever the flags do not reach beyond the scores.\<close>

lemma nullify_loop_total:
  "i + length vs \<le> length scores \<Longrightarrow> \<exists>res. nullify_loop scores i vs = Inr res"
  by (induction vs arbitrary: scores i) auto

lemma nullify_loop_all_true:
  "nullify_loop scores i (replicate n True) = Inr scores"
  by (induction n arbitrary: i) simp_all

text \<open>
  Claim C3. Under \<^verbatim>\<open>'truncate'\<close>, \<open>tokenize\<close> returns the truncated batch with
  every flag true, without consulting the validator, so the scores of that batch are all
  numbers: no entry is \<^verbatim>\<open>None\<close>, also for inputs longer than
  \<^verbatim>\<open>max_input_length\<close>.
\<close>

theorem tokenize_truncate_all_valid:
  assumes "overflow_strategy s = ''truncate''"
  shows "tokenize s inputs =
           Inr (tokenizer_call (tokenizer s) inputs (Some (max_input_length s)),
                replicate (length inputs) True) \<and>
         (\<forall>batch flags scores.
            tokenize s inputs = Inr (batch, flags) \<and>
            logits_to_scores s (forward (model s) batch) = Inr scores \<longrightarrow>
            score_tokens s (batch, flags) = Inr (map Some scores))"
  using assms by (auto simp: tokenize_def score_tokens_def Let_def nullify_loop_all_true)

theorem tokenize_truncate_all_valid_witness:
  "overflow_strategy (toy_scorer ''truncate'') = ''truncate'' \<and>
   validate_inputs (toy_scorer ''truncate'') [''abc'', ''abcdefgh''] = [True, False] \<and>
   tokenize (toy_scorer ''truncate'') [''abc'', ''abcdefgh''] =
     Inr ([(''input_ids'', [[1, 1, 1], [1, 1, 1, 1]])], [True, True]) \<and>
   logits_to_scores (toy_scorer ''truncate'')
     (forward (model (toy_scorer ''truncate'')) [(''input_ids'', [[1, 1, 1], [1, 1, 1, 1]])]) =
     Inr [1 / 2, 1 / 2] \<and>
   score_tokens (toy_scorer ''truncate'')
     ([(''input_ids'', [[1, 1, 1], [1, 1, 1, 1]])], [True, True]) =
     Inr [Some (1 / 2), Some (1 / 2)]"
  using tokenize_truncate_all_valid [of "toy_scorer ''truncate''" "[''abc'', ''abcdefgh'']"]
  by (simp add: toy_scorer_def toy_tokenizer_def toy_model_def validate_inputs_map
      logits_to_scores_def softmax_def softmax_row_def column_def)

text \<open>
  Claim C10. For every strategy string other than \<^verbatim>\<open>'truncate'\<close>,
  \<^verbatim>\<open>'raise'\<close> and \<^verbatim>\<open>'nullify'\<close>, construction succeeds (given that the model
  is fetched) and stores the string unchanged, and \<open>tokenize\<close> on a non-empty input
  list fails with the assertion failure, returning no batch.
\<close>

theorem unknown_strategy_asserts:
  assumes "strategy \<notin> {''truncate'', ''raise'', ''nullify''}"
    and "fetch_model language metric = Inr (tok, mdl)"
    and "inputs \<noteq> []"
  shows "\<exists>s. scorer_init fetch_model language metric cw strategy mil = Inr s \<and>
             overflow_strategy s = strategy \<and>
             tokenize s inputs = Inl AssertionError"
  using assms by (simp add: scorer_init_def tokenize_def Let_def)

theorem unknown_strategy_asserts_witness:
  "''skip'' \<notin> {''truncate'', ''raise'', ''nullify''} \<and>
   toy_fetch ''en'' ''sentiment'' = Inr (toy_tokenizer, toy_model) \<and>
   [''abc''] \<noteq> [] \<and>
   scorer_init toy_fetch ''en'' ''sentiment'' [0, 1 / 2, 1] ''skip'' None =
     Inr (toy_scorer ''skip'') \<and>
   tokenize (toy_scorer ''skip'') [''abc''] = Inl AssertionError"
  using unknown_strategy_asserts [of "''skip''" toy_fetch "''en''" "''sentiment''"
      toy_tokenizer toy_model "[''abc'']" "[0, 1 / 2, 1]" None]
  by (simp add: toy_fetch_def scorer_init_def toy_scorer_def toy_model_def)

section \<open>From logits to scores\<close>

text \<open>
  The loop of \<^verbatim>\<open>_logits_to_scores\<close> works column by column; the lemmas below
  relate it to a row-by-row dot product. After the passes for the weights \<open>ws\<close>,
  starting at column \<open>i\<close>, each running score has grown by the dot product of its row
  from column \<open>i\<close> on with \<open>ws\<close>.
\<close>

lemma column_in_range:
  "i < ncols probs \<Longrightarrow> column probs i = Inr (map (\<lambda>r. r ! i) (rows probs))"
  by (simp add: column_def)

lemma dot_product_drop:
  "i < length r \<Longrightarrow> dot_product (drop i r) (w # ws) = r ! i * w + dot_product (drop (Suc i) r) ws"
  by (simp add: dot_product_def Cons_nth_drop_Suc [symmetric])

lemma accumulate_scores_dot:
  assumes "wf_tensor probs" and "i + length ws \<le> ncols probs"
    and "length scores = length (rows probs)"
  shows "accumulate_scores probs scores i ws =
           Inr (map2 (\<lambda>sc r. sc + dot_product (drop i r) ws) scores (rows probs))"
  using assms
proof (induction ws arbitrary: scores i)
  case Nil
  then show ?case
    by (simp add: dot_product_def map_idI map2_map_map [where g = "\<lambda>x. x", simplified, symmetric] list_eq_iff_nth_eq)
next
  case (Cons w ws)
  have rowlen: "\<And>r. r \<in> set (rows probs) \<Longrightarrow> i < length r"
    using Cons.prems by (auto simp: wf_tensor_def list_all_iff)
  let ?scores' = "map2 (+) scores (map (\<lambda>p. p * w) (map (\<lambda>r. r ! i) (rows probs)))"
  have "accumulate_scores probs scores i (w # ws) = accumulate_scores probs ?scores' (Suc i) ws"
    using Cons.prems by (simp add: column_in_range)
  also have "\<dots> = Inr (map2 (\<lambda>sc r. sc + dot_product (drop (Suc i) r) ws) ?scores' (rows probs))"
    using Cons.prems by (intro Cons.IH) simp_all
  also have "map2 (\<lambda>sc r. sc + dot_product (drop (Suc i) r) ws) ?scores' (rows probs) =
             map2 (\<lambda>sc r. sc + dot_product (drop i r) (w # ws)) scores (rows probs)"
    using Cons.prems rowlen
    by (auto simp: list_eq_iff_nth_eq dot_product_drop)
  finally show ?case .
qed

lemma accumulate_scores_index_error:
  "i \<le> ncols probs \<Longrightarrow> ncols probs < i + length ws \<Longrightarrow>
     accumulate_scores probs scores i ws = Inl IndexError"
  by (induction ws arbitrary: scores i) (auto simp: column_def)

lemma wf_softmax: "wf_tensor logits \<Longrightarrow> wf_tensor (softmax logits)"
  by (auto simp: wf_tensor_def softmax_def softmax_row_def list_all_iff)

lemma logits_to_scores_dot:
  assumes "wf_tensor logits" and "length (class_weights s) \<le> ncols logits"
  shows "logits_to_scores s logits =
           Inr (map (\<lambda>row. dot_product (softmax_row row) (class_weights s)) (rows logits))"
proof -
  have "logits_to_scores s logits =
          Inr (map2 (\<lambda>sc r. sc + dot_product (drop 0 r) (class_weights s))
                 (replicate (length (rows (softmax logits))) 0) (rows (softmax logits)))"
    unfolding logits_to_scores_def Let_def
    using assms by (intro accumulate_scores_dot wf_softmax) (simp_all add: softmax_def)
  also have "map2 (\<lambda>sc r. sc + dot_product (drop 0 r) (class_weights s))
                 (replicate (length (rows (softmax logits))) 0) (rows (softmax logits)) =
             map (\<lambda>row. dot_product (softmax_row row) (class_weights s)) (rows logits)"
    by (simp add: list_eq_iff_nth_eq softmax_def)
  finally show ?thesis .
qed

lemma logits_to_scores_index_error:
  "ncols logits < length (class_weights s) \<Longrightarrow> logits_to_scores s logits = Inl IndexError"
  by (simp add: logits_to_scores_def Let_def accumulate_scores_index_error softmax_def)

text \<open>
  Claim C5. For a logits matrix with one column per class weight, each score is the dot
  product of the row's softmax probabilities and \<^verbatim>\<open>class_weights\<close>. For the
  weights \<open>[0, 0.5, 1]\<close> and the probabilities \<open>[0.2, 0.3, 0.5]\<close> the reduction
  gives \<open>0.3 * 0.5 + 0.5 * 1 = 0.65\<close>.
\<close>

theorem logits_to_scores_is_dot_product:
  "(wf_tensor logits \<and> ncols logits = length (class_weights s) \<longrightarrow>
      logits_to_scores s logits =
        Inr (map (\<lambda>row. dot_product (softmax_row row) (class_weights s)) (rows logits))) \<and>
   accumulate_scores \<lparr>ncols = 3, rows = [[0.2, 0.3, 0.5]]\<rparr> [0] 0 [0, 0.5, 1] = Inr [0.65] \<and>
   dot_product [0.2, 0.3, 0.5] [0, 0.5, 1] = 0.3 * 0.5 + 0.5 * 1 \<and>
   dot_product [0.2, 0.3, 0.5] [0, 0.5, 1] = 0.65"
  by (simp add: logits_to_scores_dot column_def dot_product_def)

theorem logits_to_scores_is_dot_product_witness:
  "wf_tensor \<lparr>ncols = 3, rows = [[ln 0.2, ln 0.3, ln 0.5], [0, 0, 0]]\<rparr> \<and>
   ncols \<lparr>ncols = 3, rows = [[ln 0.2, ln 0.3, ln 0.5], [0, 0, 0]]\<rparr> =
     length (class_weights (toy_scorer ''nullify'')) \<and>
   softmax_row [ln 0.2, ln 0.3, ln 0.5] = [0.2, 0.3, 0.5] \<and>
   logits_to_scores (toy_scorer ''nullify'')
     \<lparr>ncols = 3, rows = [[ln 0.2, ln 0.3, ln 0.5], [0, 0, 0]]\<rparr> = Inr [0.65, 0.5]"
  using logits_to_scores_is_dot_product
    [of "\<lparr>ncols = 3, rows = [[ln 0.2, ln 0.3, ln 0.5], [0, 0, 0]]\<rparr>" "toy_scorer ''nullify''"]
  by (simp add: wf_tensor_def toy_scorer_def softmax_row_def dot_product_def)

text \<open>
  Claim C6, as stated (a \<^verbatim>\<open>class_weights\<close> sequence whose length differs from the
  class count is detected and raised at construction or first use), fails: with one
  weight and a three-class model, construction, tokenizing and scoring all succeed, and
  the score is the first class's probability alone.
\<close>

theorem short_class_weights_not_detected:
  "scorer_init toy_fetch ''en'' ''sentiment'' [1] ''nullify'' None =
     Inr ((toy_scorer ''nullify'')\<lparr>class_weights := [1]\<rparr>) \<and>
   tokenize ((toy_scorer ''nullify'')\<lparr>class_weights := [1]\<rparr>) [''abc''] =
     Inr ([(''input_ids'', [[1, 1, 1]])], [True]) \<and>
   ncols (forward toy_model [(''input_ids'', [[1, 1, 1]])]) = 3 \<and>
   length (class_weights ((toy_scorer ''nullify'')\<lparr>class_weights := [1]\<rparr>)) = 1 \<and>
   score_tokens ((toy_scorer ''nullify'')\<lparr>class_weights := [1]\<rparr>)
     ([(''input_ids'', [[1, 1, 1]])], [True]) = Inr [Some (1 / 3)]"
  by (simp add: scorer_init_def toy_fetch_def toy_scorer_def toy_model_def toy_tokenizer_def
      tokenize_def validate_inputs_def score_tokens_def logits_to_scores_def softmax_def
      softmax_row_def column_def Let_def)

text \<open>
  Claim C6, amended. An unrecognised strategy makes the first \<open>tokenize\<close> fail with
  the assertion failure; more class weights than classes make the first
  \<open>logits_to_scores\<close> fail with \<^verbatim>\<open>IndexError\<close>; fewer class weights than classes
  are not detected: each score is the weighted sum over the leading classes only.
\<close>

theorem configuration_errors_at_first_use:
  "(strategy \<notin> {''truncate'', ''raise'', ''nullify''} \<and> overflow_strategy s = strategy \<longrightarrow>
      tokenize s inputs = Inl AssertionError) \<and>
   (ncols logits < length (class_weights s) \<longrightarrow>
      logits_to_scores s logits = Inl IndexError) \<and>
   (wf_tensor logits \<and> length (class_weights s) < ncols logits \<longrightarrow>
      logits_to_scores s logits =
        Inr (map (\<lambda>row. dot_product (take (length (class_weights s)) (softmax_row row))
                          (class_weights s)) (rows logits)))"
proof -
  have "dot_product (take (length w) p) w = dot_product p w" for p w :: "real list"
    by (induction p w rule: list_induct2') (simp_all add: dot_product_def)
  then show ?thesis
    by (auto simp: tokenize_def Let_def logits_to_scores_index_error logits_to_scores_dot)
qed

theorem configuration_errors_at_first_use_witness:
  "''skip'' \<notin> {''truncate'', ''raise'', ''nullify''} \<and>
   overflow_strategy (toy_scorer ''skip'') = ''skip'' \<and>
   tokenize (toy_scorer ''skip'') [''abc''] = Inl AssertionError \<and>
   ncols \<lparr>ncols = 2, rows = [[0, 0]]\<rparr> < length (class_weights (toy_scorer ''skip'')) \<and>
   logits_to_scores (toy_scorer ''skip'') \<lparr>ncols = 2, rows = [[0, 0]]\<rparr> = Inl IndexError \<and>
   wf_tensor \<lparr>ncols = 4, rows = [[0, 0, 0, 0]]\<rparr> \<and>
   length (class_weights (toy_scorer ''skip'')) < ncols \<lparr>ncols = 4, rows = [[0, 0, 0, 0]]\<rparr> \<and>
   logits_to_scores (toy_scorer ''skip'') \<lparr>ncols = 4, rows = [[0, 0, 0, 0]]\<rparr> = Inr [3 / 8]"
  using configuration_errors_at_first_use
      [where strategy = "''skip''" and s = "toy_scorer ''skip''" and inputs = "[''abc'']"
         and logits = "\<lparr>ncols = 2, rows = [[0, 0]]\<rparr>"]
    configuration_errors_at_first_use
      [where strategy = "''skip''" and s = "toy_scorer ''skip''" and inputs = "[''abc'']"
         and logits = "\<lparr>ncols = 4, rows = [[0, 0, 0, 0]]\<rparr>"]
  by (simp add: toy_scorer_def wf_tensor_def softmax_row_def dot_product_def)

section \<open>Scores, flags and inputs stay aligned\<close>

lemma tokenize_flags:
  assumes "tokenize s inputs = Inr (batch, flags)"
  shows "batch = tokenizer_call (tokenizer s) inputs (Some (max_input_length s)) \<and>
         (overflow_strategy s = ''truncate'' \<or> overflow_strategy s = ''nullify'') \<and>
         flags = map (\<lambda>text. overflow_strategy s = ''truncate'' \<or>
                        int (length (encode (tokenizer s) text)) \<le> max_input_length s) inputs"
  using assms
  by (auto simp: tokenize_def Let_def validate_inputs_map map_replicate_const split: if_splits)

lemma score_tokens_result:
  assumes "logits_to_scores s (forward (model s) batch) = Inr scores"
    and "length flags \<le> length scores"
  shows "\<exists>res. score_tokens s (batch, flags) = Inr res \<and> length res = length scores \<and>
           (\<forall>i<length scores. res ! i =
              (if i < length flags \<and> \<not> flags ! i then None else Some (scores ! i)))"
proof -
  from assms(2) obtain res where res: "nullify_loop (map Some scores) 0 flags = Inr res"
    using nullify_loop_total [of 0 flags "map Some scores"] by auto
  from nullify_loop_result [OF res] have "length res = length scores \<and>
           (\<forall>i<length scores. res ! i =
              (if i < length flags \<and> \<not> flags ! i then None else Some (scores ! i)))"
    by simp
  with res assms(1) show ?thesis by (simp add: score_tokens_def)
qed

lemma score_tokens_None:
  assumes "score_tokens s (batch, flags) = Inr res" and "i < length res" and "res ! i = None"
  shows "i < length flags \<and> \<not> flags ! i"
proof -
  from assms(1) obtain scores where
    res: "nullify_loop (map Some scores) 0 flags = Inr res"
    by (auto simp: score_tokens_def split: sum.splits)
  from nullify_loop_result [OF res] assms(2,3) show ?thesis
    by (auto split: if_splits)
qed

text \<open>
  Claim C2. When the reduction yields one score per flag, \<open>score_tokens\<close> returns a
  list of the same length holding \<^verbatim>\<open>None\<close> where the flag is false and the
  reduction's score where it is true; the false flags do not stop the batch. In the result
  of scoring what \<open>tokenize\<close> returned, \<^verbatim>\<open>None\<close> stands only at an input that is
  longer than \<^verbatim>\<open>max_input_length\<close>, and only under \<^verbatim>\<open>'nullify'\<close>.
\<close>

theorem score_tokens_nullifies_rejected:
  "(\<forall>scores.
      logits_to_scores s (forward (model s) batch) = Inr scores \<and> length flags = length scores \<longrightarrow>
      (\<exists>res. score_tokens s (batch, flags) = Inr res \<and> length res = length flags \<and>
         (\<forall>i<length flags. res ! i = (if flags ! i then Some (scores ! i) else None)))) \<and>
   (\<forall>batch' flags' res i.
      tokenize s inputs = Inr (batch', flags') \<and> score_tokens s (batch', flags') = Inr res \<and>
      i < length res \<and> res ! i = None \<longrightarrow>
      overflow_strategy s = ''nullify'' \<and> i < length inputs \<and>
      \<not> int (length (encode (tokenizer s) (inputs ! i))) \<le> max_input_length s)"
proof (intro conjI allI impI)
  fix scores
  assume a: "logits_to_scores s (forward (model s) batch) = Inr scores \<and> length flags = length scores"
  then show "\<exists>res. score_tokens s (batch, flags) = Inr res \<and> length res = length flags \<and>
         (\<forall>i<length flags. res ! i = (if flags ! i then Some (scores ! i) else None))"
    using score_tokens_result [of s batch scores flags] by auto
next
  fix batch' flags' res i
  assume a: "tokenize s inputs = Inr (batch', flags') \<and> score_tokens s (batch', flags') = Inr res \<and>
      i < length res \<and> res ! i = None"
  then have f: "i < length flags' \<and> \<not> flags' ! i"
    using score_tokens_None by blast
  from a tokenize_flags [of s inputs batch' flags'] have
    fl: "flags' = map (\<lambda>text. overflow_strategy s = ''truncate'' \<or>
                        int (length (encode (tokenizer s) text)) \<le> max_input_length s) inputs"
    and st: "overflow_strategy s = ''truncate'' \<or> overflow_strategy s = ''nullify''"
    by simp_all
  from f fl have i: "i < length inputs" by simp
  with f fl have "\<not> (overflow_strategy s = ''truncate'' \<or>
      int (length (encode (tokenizer s) (inputs ! i))) \<le> max_input_length s)"
    by simp
  with st i show "overflow_strategy s = ''nullify''" "i < length inputs"
      "\<not> int (length (encode (tokenizer s) (inputs ! i))) \<le> max_input_length s"
    by auto
qed

theorem score_tokens_nullifies_rejected_witness:
  "tokenize (toy_scorer ''nullify'') [''abc'', ''abcdefgh'', ''ab''] =
     Inr ([(''input_ids'', [[1, 1, 1], [1, 1, 1, 1], [1, 1]])], [True, False, True]) \<and>
   logits_to_scores (toy_scorer ''nullify'')
     (forward (model (toy_scorer ''nullify'')) [(''input_ids'', [[1, 1, 1], [1, 1, 1, 1], [1, 1]])]) =
     Inr [1 / 2, 1 / 2, 1 / 2] \<and>
   length [True, False, True] = length [1 / 2, 1 / 2, 1 / 2 :: real] \<and>
   score_tokens (toy_scorer ''nullify'')
     ([(''input_ids'', [[1, 1, 1], [1, 1, 1, 1], [1, 1]])], [True, False, True]) =
     Inr [Some (1 / 2), None, Some (1 / 2)] \<and>
   overflow_strategy (toy_scorer ''nullify'') = ''nullify'' \<and>
   \<not> int (length (encode (tokenizer (toy_scorer ''nullify'')) ([''abc'', ''abcdefgh'', ''ab''] ! 1)))
       \<le> max_input_length (toy_scorer ''nullify'')"
proof -
  let ?s = "toy_scorer ''nullify''"
  let ?b = "[(''input_ids'', [[1, 1, 1], [1, 1, 1, 1], [1, 1 :: int]])]"
  have t: "tokenize ?s [''abc'', ''abcdefgh'', ''ab''] = Inr (?b, [True, False, True])"
    by (simp add: tokenize_def validate_inputs_map toy_scorer_def toy_tokenizer_def Let_def)
  have l: "logits_to_scores ?s (forward (model ?s) ?b) = Inr [1 / 2, 1 / 2, 1 / 2]"
    by (simp add: toy_scorer_def toy_model_def logits_to_scores_def softmax_def softmax_row_def
        column_def)
  have r: "score_tokens ?s (?b, [True, False, True]) = Inr [Some (1 / 2), None, Some (1 / 2)]"
    by (simp add: score_tokens_def l)
  from score_tokens_nullifies_rejected [of ?s ?b "[True, False, True]" "[''abc'', ''abcdefgh'', ''ab'']"]
  have "overflow_strategy ?s = ''nullify'' \<and>
        \<not> int (length (encode (tokenizer ?s) ([''abc'', ''abcdefgh'', ''ab''] ! 1))) \<le> max_input_length ?s"
    using t r by (elim conjE allE [where x = "?b"]) (erule allE [where x = "[True, False, True]"],
        erule allE [where x = "[Some (1 / 2), None, Some (1 / 2)]"], erule allE [where x = 1], simp)
  with t l r show ?thesis by simp
qed

text \<open>
  Under \<^verbatim>\<open>'truncate'\<close> and \<^verbatim>\<open>'nullify'\<close>, \<open>tokenize\<close> returns: the batch
  is the tokenizer's output for the inputs in the order given, and there is one flag per
  input, in the same order.
\<close>

lemma tokenize_returns:
  assumes "overflow_strategy s = ''truncate'' \<or> overflow_strategy s = ''nullify''"
  shows "tokenize s inputs =
           Inr (tokenizer_call (tokenizer s) inputs (Some (max_input_length s)),
                map (\<lambda>text. overflow_strategy s = ''truncate'' \<or>
                        int (length (encode (tokenizer s) text)) \<le> max_input_length s) inputs)"
  using assms
  by (auto simp: tokenize_def Let_def validate_inputs_map map_replicate_const)

text \<open>
  Claim C4. The validity flag at index \<open>i\<close> is the validation outcome of
  \<open>texts ! i\<close>. The batch \<open>tokenize\<close> returns is the tokenizer's output for
  \<open>texts\<close> itself, with one flag per text. For a model producing one well-formed
  logits row per text, \<open>score_tokens\<close> returns one entry per text, the entry at index
  \<open>i\<close> being computed from flag \<open>i\<close> and from row \<open>i\<close> of the logits of that
  batch; when row \<open>i\<close> of these logits is a function \<open>f\<close> of \<open>texts ! i\<close>, the
  result is the map over \<open>texts\<close> of the score of \<open>f text\<close>, nullified where the
  text is rejected.
\<close>

theorem scores_aligned_with_inputs:
  "length (validate_inputs s texts) = length texts \<and>
   (\<forall>i<length texts.
      validate_inputs s texts ! i =
        (int (length (encode (tokenizer s) (texts ! i))) \<le> max_input_length s)) \<and>
   (overflow_strategy s = ''truncate'' \<or> overflow_strategy s = ''nullify'' \<longrightarrow>
      tokenize s texts =
        Inr (tokenizer_call (tokenizer s) texts (Some (max_input_length s)),
             map (\<lambda>text. overflow_strategy s = ''truncate'' \<or>
                     int (length (encode (tokenizer s) text)) \<le> max_input_length s) texts)) \<and>
   (\<forall>batch flags.
      tokenize s texts = Inr (batch, flags) \<and>
      wf_tensor (forward (model s) batch) \<and>
      length (rows (forward (model s) batch)) = length texts \<and>
      length (class_weights s) \<le> ncols (forward (model s) batch) \<longrightarrow>
      batch = tokenizer_call (tokenizer s) texts (Some (max_input_length s)) \<and>
      length flags = length texts \<and>
      (\<forall>i<length texts.
         flags ! i = (overflow_strategy s = ''truncate'' \<or> validate_inputs s texts ! i)) \<and>
      (\<exists>res. score_tokens s (batch, flags) = Inr res \<and> length res = length texts \<and>
         (\<forall>i<length texts.
            res ! i =
              (if flags ! i
               then Some (dot_product
                      (softmax_row
                         (rows (forward (model s)
                            (tokenizer_call (tokenizer s) texts (Some (max_input_length s)))) ! i))
                      (class_weights s))
               else None)) \<and>
         (\<forall>f. rows (forward (model s)
                      (tokenizer_call (tokenizer s) texts (Some (max_input_length s)))) =
                 map f texts \<longrightarrow>
              res = map (\<lambda>text.
                      if overflow_strategy s = ''truncate'' \<or>
                         int (length (encode (tokenizer s) text)) \<le> max_input_length s
                      then Some (dot_product (softmax_row (f text)) (class_weights s))
                      else None) texts)))"
proof (intro conjI allI impI)
  show "length (validate_inputs s texts) = length texts"
    by (simp add: validate_inputs_map)
  show "\<And>i. i < length texts \<Longrightarrow> validate_inputs s texts ! i =
        (int (length (encode (tokenizer s) (texts ! i))) \<le> max_input_length s)"
    by (simp add: validate_inputs_map)
  show "overflow_strategy s = ''truncate'' \<or> overflow_strategy s = ''nullify'' \<Longrightarrow>
      tokenize s texts =
        Inr (tokenizer_call (tokenizer s) texts (Some (max_input_length s)),
             map (\<lambda>text. overflow_strategy s = ''truncate'' \<or>
                     int (length (encode (tokenizer s) text)) \<le> max_input_length s) texts)"
    by (rule tokenize_returns)
next
  fix batch flags
  assume a: "tokenize s texts = Inr (batch, flags) \<and>
      wf_tensor (forward (model s) batch) \<and>
      length (rows (forward (model s) batch)) = length texts \<and>
      length (class_weights s) \<le> ncols (forward (model s) batch)"
  let ?batch = "tokenizer_call (tokenizer s) texts (Some (max_input_length s))"
  let ?logits = "forward (model s) ?batch"
  let ?valid = "\<lambda>text. overflow_strategy s = ''truncate'' \<or>
                        int (length (encode (tokenizer s) text)) \<le> max_input_length s"
  let ?scores = "map (\<lambda>row. dot_product (softmax_row row) (class_weights s)) (rows ?logits)"
  from a tokenize_flags [of s texts batch flags] have
    b: "batch = ?batch" and fl: "flags = map ?valid texts"
    by simp_all
  show "batch = ?batch" by (rule b)
  show len: "length flags = length texts" by (simp add: fl)
  show "\<And>i. i < length texts \<Longrightarrow>
      flags ! i = (overflow_strategy s = ''truncate'' \<or> validate_inputs s texts ! i)"
    by (simp add: fl validate_inputs_map)
  from a b have sc: "logits_to_scores s (forward (model s) batch) = Inr ?scores"
    by (simp add: logits_to_scores_dot)
  from a b have n: "length ?scores = length texts" by simp
  from score_tokens_result [OF sc, of flags] len n
  obtain res where r: "score_tokens s (batch, flags) = Inr res"
    and l: "length res = length texts"
    and nth: "\<forall>i<length texts. res ! i =
                (if flags ! i then Some (?scores ! i) else None)"
    by auto
  have nth': "\<forall>i<length texts. res ! i =
      (if flags ! i
       then Some (dot_product (softmax_row (rows ?logits ! i)) (class_weights s))
       else None)"
    using nth a b by simp
  have "res = map (\<lambda>text. if ?valid text
                      then Some (dot_product (softmax_row (f text)) (class_weights s))
                      else None) texts"
    if h: "rows ?logits = map f texts" for f
  proof (rule nth_equalityI)
    show "length res = length (map (\<lambda>text. if ?valid text
                      then Some (dot_product (softmax_row (f text)) (class_weights s))
                      else None) texts)"
      using l by simp
  next
    fix i
    assume "i < length res"
    with l have i: "i < length texts" by simp
    with nth' have "res ! i =
        (if flags ! i
         then Some (dot_product (softmax_row (rows ?logits ! i)) (class_weights s))
         else None)"
      by blast
    moreover have "rows ?logits ! i = f (texts ! i)"
      using h i by simp
    moreover have "flags ! i = ?valid (texts ! i)"
      using i by (simp add: fl del: list.size)
    ultimately show "res ! i = map (\<lambda>text. if ?valid text
                      then Some (dot_product (softmax_row (f text)) (class_weights s))
                      else None) texts ! i"
      using i by (simp del: list.size)
  qed
  with r l nth' show "\<exists>res. score_tokens s (batch, flags) = Inr res \<and> length res = length texts \<and>
         (\<forall>i<length texts.
            res ! i =
              (if flags ! i
               then Some (dot_product (softmax_row (rows ?logits ! i)) (class_weights s))
               else None)) \<and>
         (\<forall>f. rows ?logits = map f texts \<longrightarrow>
              res = map (\<lambda>text.
                      if ?valid text
                      then Some (dot_product (softmax_row (f text)) (class_weights s))
                      else None) texts)"
    by blast
qed


theorem scores_aligned_with_inputs_witness:
  "tokenize (toy_length_scorer ''nullify'') [''ab'', ''abcdefgh'', ''abc''] =
     Inr ([(''input_ids'', [[1, 1], [1, 1, 1, 1], [1, 1, 1]])], [True, False, True]) \<and>
   forward (model (toy_length_scorer ''nullify''))
       [(''input_ids'', [[1, 1], [1, 1, 1, 1], [1, 1, 1]])] =
     \<lparr>ncols = 3, rows = [[0, 0, 0], [0, 0, ln 2], [0, 0, ln 2]]\<rparr> \<and>
   wf_tensor \<lparr>ncols = 3, rows = [[0, 0, 0], [0, 0, ln 2], [0, 0, ln 2]]\<rparr> \<and>
   length (class_weights (toy_length_scorer ''nullify'')) \<le> 3 \<and>
   score_tokens (toy_length_scorer ''nullify'')
     ([(''input_ids'', [[1, 1], [1, 1, 1, 1], [1, 1, 1]])], [True, False, True]) =
     Inr [Some (1 / 2), None, Some (5 / 8)] \<and>
   tokenize (toy_length_scorer ''nullify'') [''abc'', ''abcdefgh'', ''ab''] =
     Inr ([(''input_ids'', [[1, 1, 1], [1, 1, 1, 1], [1, 1]])], [True, False, True]) \<and>
   score_tokens (toy_length_scorer ''nullify'')
     ([(''input_ids'', [[1, 1, 1], [1, 1, 1, 1], [1, 1]])], [True, False, True]) =
     Inr [Some (5 / 8), None, Some (1 / 2)]"
proof -
  let ?s = "toy_length_scorer ''nullify''"
  let ?texts = "[''ab'', ''abcdefgh'', ''abc'']"
  let ?b = "[(''input_ids'', [[1, 1], [1, 1, 1, 1], [1, 1, 1 :: int]])]"
  let ?fl = "[True, False, True]"
  let ?f = "\<lambda>text :: string. [0, 0, if min 4 (length text) < 3 then 0 else ln (2 :: real)]"
  have st: "overflow_strategy ?s = ''nullify''" and cw: "class_weights ?s = [0, 1 / 2, 1]"
    and mx: "max_input_length ?s = 4"
    and call: "tokenizer_call (tokenizer ?s) ?texts (Some (max_input_length ?s)) = ?b"
    and enc: "\<And>text. encode (tokenizer ?s) text = map (\<lambda>c. 1) text"
    by (simp_all add: toy_length_scorer_def toy_tokenizer_def)
  have f: "forward (model ?s) ?b = \<lparr>ncols = 3, rows = [[0, 0, 0], [0, 0, ln 2], [0, 0, ln 2]]\<rparr>"
    by (simp add: toy_length_scorer_def toy_length_model_def)
  have t: "tokenize ?s ?texts = Inr (?b, ?fl)"
    by (simp add: tokenize_def validate_inputs_map toy_length_scorer_def toy_tokenizer_def Let_def)
  have w: "wf_tensor (forward (model ?s) ?b)"
    by (simp add: f wf_tensor_def)
  have n: "length (rows (forward (model ?s) ?b)) = length ?texts"
    by (simp add: f)
  have c: "length (class_weights ?s) \<le> ncols (forward (model ?s) ?b)"
    by (simp add: f cw)
  have rf: "rows (forward (model ?s) (tokenizer_call (tokenizer ?s) ?texts
              (Some (max_input_length ?s)))) = map ?f ?texts"
    by (simp add: call f)
  from scores_aligned_with_inputs [of ?s ?texts] t w n c rf
  have "\<exists>res. score_tokens ?s (?b, ?fl) = Inr res \<and>
          res = map (\<lambda>text.
                  if overflow_strategy ?s = ''truncate'' \<or>
                     int (length (encode (tokenizer ?s) text)) \<le> max_input_length ?s
                  then Some (dot_product (softmax_row (?f text)) (class_weights ?s))
                  else None) ?texts"
    by blast
  then have r: "score_tokens ?s (?b, ?fl) = Inr [Some (1 / 2), None, Some (5 / 8)]"
    by (simp add: st cw mx enc softmax_row_def dot_product_def)
  have t': "tokenize ?s [''abc'', ''abcdefgh'', ''ab''] =
      Inr ([(''input_ids'', [[1, 1, 1], [1, 1, 1, 1], [1, 1]])], [True, False, True])"
    by (simp add: tokenize_def validate_inputs_map toy_length_scorer_def toy_tokenizer_def Let_def)
  have r': "score_tokens ?s ([(''input_ids'', [[1, 1, 1], [1, 1, 1, 1], [1, 1]])], [True, False, True]) =
      Inr [Some (5 / 8), None, Some (1 / 2)]"
    by (simp add: score_tokens_def toy_length_scorer_def toy_length_model_def logits_to_scores_def
        softmax_def softmax_row_def column_def)
  from w c have "wf_tensor \<lparr>ncols = 3, rows = [[0, 0, 0], [0, 0, ln 2], [0, 0, ln 2]]\<rparr>"
    "length (class_weights ?s) \<le> 3"
    by (simp_all add: f)
  with t f r t' r' show ?thesis by blast
qed

section \<open>Slicing a batch\<close>

text \<open>
  Python's slice bounds are clamped to the sequence, so a slice is the segment of the
  original from the clamped start.
\<close>

lemma slice_bound_range: "0 \<le> slice_bound (int n) i \<and> slice_bound (int n) i \<le> int n"
  by (simp add: slice_bound_def)

lemma slice_bound_nat_le: "nat (slice_bound (int n) i) \<le> n"
  using slice_bound_range [of n i] by linarith

lemma py_slice_length:
  "length (py_slice xs a b) =
     nat (slice_bound (int (length xs)) b - slice_bound (int (length xs)) a)"
proof -
  have "nat (slice_bound (int (length xs)) b - slice_bound (int (length xs)) a)
          \<le> length xs - nat (slice_bound (int (length xs)) a)"
    using slice_bound_range [of "length xs" a] slice_bound_range [of "length xs" b]
    by linarith
  then show ?thesis
    by (simp add: py_slice_def Let_def)
qed

lemma py_slice_nth:
  "j < length (py_slice xs a b) \<Longrightarrow>
     py_slice xs a b ! j = xs ! (nat (slice_bound (int (length xs)) a) + j)"
  using slice_bound_nat_le [of "length xs" a]
  by (simp add: py_slice_def Let_def)

lemma py_slice_within:
  "nat (slice_bound (int (length xs)) a) + length (py_slice xs a b) \<le> length xs"
  using slice_bound_range [of "length xs" a] slice_bound_range [of "length xs" b]
  unfolding py_slice_length by linarith

lemma py_index_nat: "k < length xs \<Longrightarrow> py_index xs (int k) = Inr (xs ! k)"
  by (simp add: py_index_def Let_def)

text \<open>
  Claim C8, as stated (for every start/end pair, position \<open>j\<close> of the slice holds item
  \<open>start + j\<close> of the original), fails for a start below \<open>- len\<close>: the slice
  \<^verbatim>\<open>[-5:2]\<close> of three items begins at item \<open>0\<close>, while the original has no item
  \<open>-5\<close>.
\<close>

theorem slice_tokens_clamped_start:
  "slice_tokens (toy_scorer ''nullify'')
     ([(''input_ids'', [[7], [8], [9]])], [True, False, True]) (- 5) 2 =
     ([(''input_ids'', [[7], [8]])], [True, False]) \<and>
   py_index [True, False, True] (- 5 + 0) = Inl IndexError \<and>
   py_index [[7], [8], [9 :: int]] (- 5 + 0) = Inl IndexError \<and>
   \<not> py_index [True, False, True] (- 5 + 0) =
       Inr (snd (slice_tokens (toy_scorer ''nullify'')
                  ([(''input_ids'', [[7], [8], [9]])], [True, False, True]) (- 5) 2) ! 0)"
  by (simp add: slice_tokens_def py_slice_def slice_bound_def py_index_def Let_def)

text \<open>
  Claim C8, amended. For a batch whose arrays all have as many rows as there are flags, and
  any start and end, \<open>slice_tokens\<close> keeps the keys, slices every array and the flags
  over the same range, so each sliced array has as many rows as there are sliced flags,
  and position \<open>j\<close> of the sliced flags and of every sliced array holds item
  \<open>lo + j\<close> of the original, where \<open>lo\<close> is the start clamped by Python's slice rule
  (\<open>lo = start\<close> when \<open>0 \<le> start \<le> len\<close>).
\<close>

theorem slice_tokens_consistent:
  assumes "list_all (\<lambda>(key, value). length value = length flags) batch"
  shows "case slice_tokens s (batch, flags) start_idx end_idx of (batch', flags') \<Rightarrow>
           map fst batch' = map fst batch \<and>
           list_all (\<lambda>(key, value). length value = length flags') batch' \<and>
           (let lo = nat (slice_bound (int (length flags)) start_idx)
            in lo + length flags' \<le> length flags \<and>
               (0 \<le> start_idx \<and> start_idx \<le> int (length flags) \<longrightarrow> int lo = start_idx) \<and>
               (\<forall>j<length flags'.
                  flags' ! j = flags ! (lo + j) \<and>
                  py_index flags (int (lo + j)) = Inr (flags' ! j) \<and>
                  (\<forall>k<length batch.
                     snd (batch' ! k) ! j = snd (batch ! k) ! (lo + j) \<and>
                     py_index (snd (batch ! k)) (int (lo + j)) = Inr (snd (batch' ! k) ! j))))"
proof -
  let ?lo = "nat (slice_bound (int (length flags)) start_idx)"
  let ?fl = "py_slice flags start_idx end_idx"
  have len: "length value = length flags" if "(key, value) \<in> set batch" for key "value"
    using assms that by (auto simp: list_all_iff)
  have keys: "map fst (map (\<lambda>(key, value). (key, py_slice value start_idx end_idx)) batch) = map fst batch"
    by (simp add: case_prod_unfold comp_def)
  have lens: "list_all (\<lambda>(key, value). length value = length ?fl)
                (map (\<lambda>(key, value). (key, py_slice value start_idx end_idx)) batch)"
    using len by (auto simp: list_all_iff py_slice_length)
  have within: "?lo + length ?fl \<le> length flags"
    by (rule py_slice_within)
  have start: "0 \<le> start_idx \<and> start_idx \<le> int (length flags) \<longrightarrow> int ?lo = start_idx"
    by (simp add: slice_bound_def)
  have fl: "?fl ! j = flags ! (?lo + j) \<and> py_index flags (int (?lo + j)) = Inr (?fl ! j)"
    if "j < length ?fl" for j
  proof -
    from that within have "?lo + j < length flags" by linarith
    then have A: "py_index flags (int (?lo + j)) = Inr (flags ! (?lo + j))"
      by (rule py_index_nat)
    have B: "?fl ! j = flags ! (?lo + j)"
      using that by (rule py_slice_nth)
    show ?thesis by (intro conjI) (simp only: B, simp only: A B)
  qed
  have rows: "snd (map (\<lambda>(key, value). (key, py_slice value start_idx end_idx)) batch ! k) ! j =
                snd (batch ! k) ! (?lo + j) \<and>
              py_index (snd (batch ! k)) (int (?lo + j)) =
                Inr (snd (map (\<lambda>(key, value). (key, py_slice value start_idx end_idx)) batch ! k) ! j)"
    if "j < length ?fl" "k < length batch" for j k
  proof -
    obtain key "value" where kv: "batch ! k = (key, value)" by (cases "batch ! k")
    with that have l: "length value = length flags"
      using len [of key "value"] nth_mem [of k batch] by simp
    with that have j: "j < length (py_slice value start_idx end_idx)"
      by (simp add: py_slice_length)
    from within l that have "?lo + j < length value" by linarith
    then have A: "py_index value (int (?lo + j)) = Inr (value ! (?lo + j))"
      by (rule py_index_nat)
    have B: "py_slice value start_idx end_idx ! j = value ! (?lo + j)"
      using py_slice_nth [OF j] l by simp
    have C: "snd (map (\<lambda>(key, value). (key, py_slice value start_idx end_idx)) batch ! k) =
               py_slice value start_idx end_idx"
      using that kv by simp
    have D: "snd (batch ! k) = value" using kv by simp
    show ?thesis by (intro conjI) (simp only: B C D, simp only: A B C D)
  qed
  show ?thesis
    unfolding slice_tokens_def Let_def
    using keys lens within start fl rows by simp
qed

theorem slice_tokens_consistent_witness:
  "list_all (\<lambda>(key, value). length value = length [True, False, True])
     [(''input_ids'', [[7], [8], [9 :: int]])] \<and>
   slice_tokens (toy_scorer ''nullify'')
     ([(''input_ids'', [[7], [8], [9]])], [True, False, True]) 1 5 =
     ([(''input_ids'', [[8], [9]])], [False, True]) \<and>
   nat (slice_bound (int (length [True, False, True])) 1) = 1 \<and>
   nat (slice_bound (int (length [True, False, True])) (- 5)) = 0"
  using slice_tokens_consistent [where flags = "[True, False, True]"
      and batch = "[(''input_ids'', [[7], [8], [9]])]" and s = "toy_scorer ''nullify''"
      and start_idx = 1 and end_idx = 5]
  by (simp add: slice_tokens_def py_slice_def slice_bound_def Let_def)

section \<open>Loading the models once\<close>

text \<open>
  The scores of \<open>sentiment\<close> on a concrete call, from empty globals: the function
  loads, scores and returns.
\<close>

lemma sentiment_value:
  "snd (sentiment toy_hub initial_globals [''good'']) =
     Inr \<lparr>metric_name = ''sentiment'', prompts = None, generated_outputs = [''good''],
          metric_values = [1 / 2]\<rparr>"
  by (simp add: sentiment_def sentiment_fetch_def toy_hub_def initial_globals_def toy_tokenizer_def
      toy_model_def softmax_def softmax_row_def column_def Let_def)

text \<open>
  The state after a metric function is the state after its loading block; a metric whose
  globals are set loads nothing; one whose globals are unset calls
  \<^verbatim>\<open>from_pretrained\<close> for the tokenizer and for the model, once each.
\<close>

lemma paths_differ: "sentiment_model_path \<noteq> fluency_model_path"
  by (simp add: sentiment_model_path_def fluency_model_path_def)

lemma fst_sentiment: "fst (sentiment h g outputs) = fst (sentiment_fetch h g)"
  by (simp add: sentiment_def Let_def split: prod.splits sum.splits)

lemma fst_fluency: "fst (fluency h g outputs) = fst (fluency_fetch h g)"
  by (simp add: fluency_def Let_def split: prod.splits sum.splits)

lemma sentiment_fetch_cached:
  assumes "sentiment_tokenizer g = Some t" and "sentiment_model g = Some m"
  shows "sentiment_fetch h g = (g, Inr (t, m))"
  using assms by (simp add: sentiment_fetch_def)

lemma sentiment_fetch_first:
  assumes "sentiment_tokenizer g = None \<or> sentiment_model g = None"
    and "AutoTokenizer_from_pretrained h sentiment_model_path = Inr t"
    and "AutoModelForSequenceClassification_from_pretrained h sentiment_model_path = Inr m"
  shows "sentiment_fetch h g =
           (g\<lparr>sentiment_tokenizer := Some t, sentiment_model := Some m,
               from_pretrained_calls := from_pretrained_calls g @
                 [TokenizerLoad sentiment_model_path, ModelLoad sentiment_model_path]\<rparr>,
            Inr (t, m))"
  using assms by (auto simp: sentiment_fetch_def Let_def split: option.splits)

lemma fluency_fetch_cached:
  assumes "fluency_tokenizer g = Some t" and "fluency_model g = Some m"
  shows "fluency_fetch h g = (g, Inr (t, m))"
  using assms by (simp add: fluency_fetch_def)

lemma fluency_fetch_first:
  assumes "fluency_tokenizer g = None \<or> fluency_model g = None"
    and "AutoTokenizer_from_pretrained h fluency_model_path = Inr t"
    and "AutoModelForSequenceClassification_from_pretrained h fluency_model_path = Inr m"
  shows "fluency_fetch h g =
           (g\<lparr>fluency_tokenizer := Some t, fluency_model := Some m,
               from_pretrained_calls := from_pretrained_calls g @
                 [TokenizerLoad fluency_model_path, ModelLoad fluency_model_path]\<rparr>,
            Inr (t, m))"
  using assms by (auto simp: fluency_fetch_def Let_def split: option.splits)

lemma sentiment_loaded_once:
  assumes "loaded_once g"
    and "AutoTokenizer_from_pretrained h sentiment_model_path = Inr t"
    and "AutoModelForSequenceClassification_from_pretrained h sentiment_model_path = Inr m"
  shows "loaded_once (fst (sentiment h g outputs))"
proof (cases "sentiment_tokenizer g = None \<or> sentiment_model g = None")
  case True
  with assms(1) have "TokenizerLoad sentiment_model_path \<notin> set (from_pretrained_calls g)"
    "ModelLoad sentiment_model_path \<notin> set (from_pretrained_calls g)"
    by (auto simp: loaded_once_def)
  with assms(1) paths_differ show ?thesis
    by (simp add: fst_sentiment sentiment_fetch_first [OF True assms(2,3)] loaded_once_def)
next
  case False
  then obtain t' m' where "sentiment_tokenizer g = Some t'" "sentiment_model g = Some m'"
    by auto
  with assms(1) show ?thesis
    by (simp add: fst_sentiment sentiment_fetch_cached)
qed

lemma fluency_loaded_once:
  assumes "loaded_once g"
    and "AutoTokenizer_from_pretrained h fluency_model_path = Inr t"
    and "AutoModelForSequenceClassification_from_pretrained h fluency_model_path = Inr m"
  shows "loaded_once (fst (fluency h g outputs))"
proof (cases "fluency_tokenizer g = None \<or> fluency_model g = None")
  case True
  with assms(1) have "TokenizerLoad fluency_model_path \<notin> set (from_pretrained_calls g)"
    "ModelLoad fluency_model_path \<notin> set (from_pretrained_calls g)"
    by (auto simp: loaded_once_def)
  with assms(1) paths_differ show ?thesis
    by (simp add: fst_fluency fluency_fetch_first [OF True assms(2,3)] loaded_once_def)
next
  case False
  then obtain t' m' where "fluency_tokenizer g = Some t'" "fluency_model g = Some m'"
    by auto
  with assms(1) show ?thesis
    by (simp add: fst_fluency fluency_fetch_cached)
qed

lemma run_calls_loaded_once:
  assumes "AutoTokenizer_from_pretrained h sentiment_model_path = Inr ts"
    and "AutoModelForSequenceClassification_from_pretrained h sentiment_model_path = Inr ms"
    and "AutoTokenizer_from_pretrained h fluency_model_path = Inr tf"
    and "AutoModelForSequenceClassification_from_pretrained h fluency_model_path = Inr mf"
  shows "loaded_once g \<Longrightarrow> loaded_once (run_calls h g calls)"
proof (induction calls arbitrary: g)
  case Nil
  then show ?case by simp
next
  case (Cons c calls)
  show ?case
  proof (cases c)
    case (CallSentiment outputs)
    with Cons sentiment_loaded_once [OF Cons.prems assms(1,2)] show ?thesis by simp
  next
    case (CallFluency outputs)
    with Cons fluency_loaded_once [OF Cons.prems assms(3,4)] show ?thesis by simp
  qed
qed

lemma initial_loaded_once: "loaded_once initial_globals"
  by (simp add: loaded_once_def initial_globals_def)

text \<open>
  Claim C9. With a hub that serves both model paths: a call of a metric whose globals are
  unset loads the pair (one tokenizer load, one model load) and stores it; a call of a
  metric whose globals are set returns that stored pair and leaves the globals and the
  record of loads unchanged; over any sequence of calls from the initial globals no load
  is recorded twice; two calls of \<open>sentiment\<close> load once, and a following call of
  \<open>fluency\<close> adds exactly the loads of the fluency pair.
\<close>

theorem model_globals_loaded_once:
  assumes "AutoTokenizer_from_pretrained h sentiment_model_path = Inr ts"
    and "AutoModelForSequenceClassification_from_pretrained h sentiment_model_path = Inr ms"
    and "AutoTokenizer_from_pretrained h fluency_model_path = Inr tf"
    and "AutoModelForSequenceClassification_from_pretrained h fluency_model_path = Inr mf"
  shows
    "(sentiment_tokenizer g = None \<or> sentiment_model g = None \<longrightarrow>
        sentiment_fetch h g = (fst (sentiment h g outputs), Inr (ts, ms)) \<and>
        fst (sentiment h g outputs) =
          g\<lparr>sentiment_tokenizer := Some ts, sentiment_model := Some ms,
             from_pretrained_calls := from_pretrained_calls g @
               [TokenizerLoad sentiment_model_path, ModelLoad sentiment_model_path]\<rparr>) \<and>
     (\<forall>t m. sentiment_tokenizer g = Some t \<and> sentiment_model g = Some m \<longrightarrow>
        sentiment_fetch h g = (g, Inr (t, m)) \<and> fst (sentiment h g outputs) = g) \<and>
     (fluency_tokenizer g = None \<or> fluency_model g = None \<longrightarrow>
        fluency_fetch h g = (fst (fluency h g outputs), Inr (tf, mf)) \<and>
        fst (fluency h g outputs) =
          g\<lparr>fluency_tokenizer := Some tf, fluency_model := Some mf,
             from_pretrained_calls := from_pretrained_calls g @
               [TokenizerLoad fluency_model_path, ModelLoad fluency_model_path]\<rparr>) \<and>
     (\<forall>t m. fluency_tokenizer g = Some t \<and> fluency_model g = Some m \<longrightarrow>
        fluency_fetch h g = (g, Inr (t, m)) \<and> fst (fluency h g outputs) = g) \<and>
     distinct (from_pretrained_calls (run_calls h initial_globals calls)) \<and>
     run_calls h initial_globals [CallSentiment a, CallSentiment b] =
       run_calls h initial_globals [CallSentiment a] \<and>
     from_pretrained_calls (run_calls h initial_globals [CallSentiment a, CallSentiment b]) =
       [TokenizerLoad sentiment_model_path, ModelLoad sentiment_model_path] \<and>
     from_pretrained_calls
       (run_calls h initial_globals [CallSentiment a, CallSentiment b, CallFluency c]) =
       [TokenizerLoad sentiment_model_path, ModelLoad sentiment_model_path,
        TokenizerLoad fluency_model_path, ModelLoad fluency_model_path]"
proof -
  have first_s: "sentiment_tokenizer g = None \<or> sentiment_model g = None \<longrightarrow>
        sentiment_fetch h g = (fst (sentiment h g outputs), Inr (ts, ms)) \<and>
        fst (sentiment h g outputs) =
          g\<lparr>sentiment_tokenizer := Some ts, sentiment_model := Some ms,
             from_pretrained_calls := from_pretrained_calls g @
               [TokenizerLoad sentiment_model_path, ModelLoad sentiment_model_path]\<rparr>"
    using assms(1,2) by (simp add: fst_sentiment sentiment_fetch_first)
  have again_s: "\<forall>t m. sentiment_tokenizer g = Some t \<and> sentiment_model g = Some m \<longrightarrow>
        sentiment_fetch h g = (g, Inr (t, m)) \<and> fst (sentiment h g outputs) = g"
    by (simp add: fst_sentiment sentiment_fetch_cached)
  have first_f: "fluency_tokenizer g = None \<or> fluency_model g = None \<longrightarrow>
        fluency_fetch h g = (fst (fluency h g outputs), Inr (tf, mf)) \<and>
        fst (fluency h g outputs) =
          g\<lparr>fluency_tokenizer := Some tf, fluency_model := Some mf,
             from_pretrained_calls := from_pretrained_calls g @
               [TokenizerLoad fluency_model_path, ModelLoad fluency_model_path]\<rparr>"
    using assms(3,4) by (simp add: fst_fluency fluency_fetch_first)
  have again_f: "\<forall>t m. fluency_tokenizer g = Some t \<and> fluency_model g = Some m \<longrightarrow>
        fluency_fetch h g = (g, Inr (t, m)) \<and> fst (fluency h g outputs) = g"
    by (simp add: fst_fluency fluency_fetch_cached)
  have once: "distinct (from_pretrained_calls (run_calls h initial_globals calls))"
    using run_calls_loaded_once [OF assms initial_loaded_once, of calls]
    by (simp add: loaded_once_def)
  let ?g1 = "initial_globals\<lparr>sentiment_tokenizer := Some ts, sentiment_model := Some ms,
             from_pretrained_calls :=
               [TokenizerLoad sentiment_model_path, ModelLoad sentiment_model_path]\<rparr>"
  have init: "sentiment_tokenizer initial_globals = None \<or> sentiment_model initial_globals = None"
    "from_pretrained_calls initial_globals = []"
    by (simp_all add: initial_globals_def)
  have g1: "fst (sentiment h initial_globals outs) = ?g1" for outs
    by (simp add: fst_sentiment sentiment_fetch_first [OF init(1) assms(1,2)] init(2))
  have g2: "fst (sentiment h ?g1 outs) = ?g1" for outs
    by (simp add: fst_sentiment sentiment_fetch_cached)
  have g3: "from_pretrained_calls (fst (fluency h ?g1 outs)) =
       [TokenizerLoad sentiment_model_path, ModelLoad sentiment_model_path,
        TokenizerLoad fluency_model_path, ModelLoad fluency_model_path]" for outs
  proof -
    have "fluency_tokenizer ?g1 = None \<or> fluency_model ?g1 = None"
      by (simp add: initial_globals_def)
    from fluency_fetch_first [OF this assms(3,4)] show ?thesis
      by (simp add: fst_fluency)
  qed
  show ?thesis
    using first_s again_s first_f again_f once
    by (simp add: g1 g2 g3)
qed

theorem model_globals_loaded_once_witness:
  "AutoTokenizer_from_pretrained toy_hub sentiment_model_path = Inr toy_tokenizer \<and>
   AutoModelForSequenceClassification_from_pretrained toy_hub sentiment_model_path = Inr toy_model \<and>
   AutoTokenizer_from_pretrained toy_hub fluency_model_path = Inr toy_tokenizer \<and>
   AutoModelForSequenceClassification_from_pretrained toy_hub fluency_model_path = Inr toy_model \<and>
   sentiment_tokenizer initial_globals = None \<and>
   fst (sentiment toy_hub initial_globals [''good'']) =
     initial_globals\<lparr>sentiment_tokenizer := Some toy_tokenizer, sentiment_model := Some toy_model,
        from_pretrained_calls :=
          [TokenizerLoad sentiment_model_path, ModelLoad sentiment_model_path]\<rparr> \<and>
   from_pretrained_calls
     (run_calls toy_hub initial_globals
        [CallSentiment [''good''], CallSentiment [''bad''], CallFluency [''fine'']]) =
     [TokenizerLoad sentiment_model_path, ModelLoad sentiment_model_path,
      TokenizerLoad fluency_model_path, ModelLoad fluency_model_path] \<and>
   distinct (from_pretrained_calls
     (run_calls toy_hub initial_globals
        [CallSentiment [''good''], CallSentiment [''bad''], CallFluency [''fine'']]))"
proof -
  have h: "AutoTokenizer_from_pretrained toy_hub sentiment_model_path = Inr toy_tokenizer"
    "AutoModelForSequenceClassification_from_pretrained toy_hub sentiment_model_path = Inr toy_model"
    "AutoTokenizer_from_pretrained toy_hub fluency_model_path = Inr toy_tokenizer"
    "AutoModelForSequenceClassification_from_pretrained toy_hub fluency_model_path = Inr toy_model"
    by (simp_all add: toy_hub_def)
  have n: "sentiment_tokenizer initial_globals = None"
    "from_pretrained_calls initial_globals = []"
    by (simp_all add: initial_globals_def)
  note T = model_globals_loaded_once [OF h, where g = initial_globals
      and outputs = "[''good'']" and a = "[''good'']" and b = "[''bad'']" and c = "[''fine'']"
      and calls = "[CallSentiment [''good''], CallSentiment [''bad''], CallFluency [''fine'']]"]
  have A: "fst (sentiment toy_hub initial_globals [''good'']) =
     initial_globals\<lparr>sentiment_tokenizer := Some toy_tokenizer, sentiment_model := Some toy_model,
        from_pretrained_calls :=
          [TokenizerLoad sentiment_model_path, ModelLoad sentiment_model_path]\<rparr>"
    using T [THEN conjunct1, THEN mp, OF disjI1 [OF n(1)], THEN conjunct2]
    by (simp only: n(2) append_Nil)
  note B = T [THEN conjunct2, THEN conjunct2, THEN conjunct2, THEN conjunct2, THEN conjunct2,
      THEN conjunct2, THEN conjunct2]
  note C = T [THEN conjunct2, THEN conjunct2, THEN conjunct2, THEN conjunct2, THEN conjunct1]
  show ?thesis using h n(1) A B C by blast
qed

end
